theory Spec2Isabelle
  imports Main "HOL-Library.Multiset"
begin

section \<open>Python values used by \<open>glogs_wordcloud.py\<close>\<close>

text \<open>
  A Python \<open>str\<close> is a sequence of Unicode code points; \<open>len\<close> counts code points.
  A character is modelled by its code point (\<open>ord\<close>), a string by the list of them.
\<close>

type_synonym pychar = nat
type_synonym pystr = "pychar list"

definition str_lit :: "string \<Rightarrow> pystr" where
  "str_lit s = map of_char s"

text \<open>An exception instance that \<open>except Exception\<close> catches, with its message.\<close>

datatype exn = Exception pystr

text \<open>
  The payload of a log entry: a \<open>str\<close>, a \<open>dict\<close> with string keys (kept as the list of
  its items, looked up with \<open>map_of\<close>), or any other object, which the code only ever
  passes to \<open>str()\<close>.
\<close>

datatype pyval = PyStr pystr | PyDict "(pystr \<times> pyval) list" | PyObject nat

record log_entry =
  payload :: pyval

text \<open>
  The character tables of the Python runtime that \<open>re\<close> and \<open>str\<close> consult are not part of
  the repository; they are a parameter of the model:
  \<^item> \<open>py_isalnum\<close>: \<open>str.isalnum\<close> on one character; \<open>\w\<close> is this or the underscore;
  \<^item> \<open>py_isspace\<close>: \<open>str.isspace\<close>, used by \<open>\s\<close> and by \<open>str.split()\<close>;
  \<^item> \<open>py_isdecimal\<close>: \<open>str.isdecimal\<close>, which is \<open>\d\<close>;
  \<^item> \<open>py_lower\<close>: \<open>str.lower\<close> on a whole string (it may change the length and
    depends on context for the final sigma).
\<close>

record unicode_tables =
  py_isalnum :: "pychar \<Rightarrow> bool"
  py_isspace :: "pychar \<Rightarrow> bool"
  py_isdecimal :: "pychar \<Rightarrow> bool"
  py_lower :: "pystr \<Rightarrow> pystr"

section \<open>Regular expressions and string methods\<close>

definition word_char :: "unicode_tables \<Rightarrow> pychar \<Rightarrow> bool" where
  "word_char U c = (py_isalnum U c \<or> c = 95)"

definition space_char :: "unicode_tables \<Rightarrow> pychar \<Rightarrow> bool" where
  "space_char U c = py_isspace U c"

definition digit_char :: "unicode_tables \<Rightarrow> pychar \<Rightarrow> bool" where
  "digit_char U c = py_isdecimal U c"

text \<open>
  \<open>re.sub(pattern, repl, text)\<close> scans \<open>text\<close> from the left and replaces each match.
  \<open>re_sub_class\<close> is the scan for a pattern that is one character class \<open>[...]\<close>,
  \<open>re_sub_plus\<close> the scan for a greedy repetition \<open>c+\<close> of a class: a match swallows
  the whole run.
\<close>

fun re_sub_class :: "(pychar \<Rightarrow> bool) \<Rightarrow> pystr \<Rightarrow> pystr \<Rightarrow> pystr" where
  "re_sub_class cls repl [] = []"
| "re_sub_class cls repl (c # cs) =
     (if cls c then repl @ re_sub_class cls repl cs else c # re_sub_class cls repl cs)"

function re_sub_plus :: "(pychar \<Rightarrow> bool) \<Rightarrow> pystr \<Rightarrow> pystr \<Rightarrow> pystr" where
  "re_sub_plus cls repl [] = []"
| "re_sub_plus cls repl (c # cs) =
     (if cls c then repl @ re_sub_plus cls repl (dropWhile cls cs)
      else c # re_sub_plus cls repl cs)"
  by pat_completeness auto
termination
  by (relation "measure (\<lambda>(cls, repl, text). length text)")
     (auto simp: length_dropWhile_le less_Suc_eq_le)

text \<open>
  \<open>text.split()\<close> without a separator: skip a run of whitespace, take the run of
  other characters as a word, go on behind it; no empty word is ever produced.
\<close>

function str_split :: "unicode_tables \<Rightarrow> pystr \<Rightarrow> pystr list" where
  "str_split U s =
     (case dropWhile (py_isspace U) s of
        [] \<Rightarrow> []
      | c # cs \<Rightarrow> (c # takeWhile (\<lambda>x. \<not> py_isspace U x) cs)
                  # str_split U (dropWhile (\<lambda>x. \<not> py_isspace U x) cs))"
  by pat_completeness auto
termination
proof (relation "measure (\<lambda>(U, s). length s)", goal_cases)
  case 1
  show ?case by simp
next
  case (2 U s c cs)
  have "length (dropWhile (\<lambda>x. \<not> py_isspace U x) cs) \<le> length cs"
    by (rule length_dropWhile_le)
  moreover have "length (c # cs) \<le> length s"
    using length_dropWhile_le [of "py_isspace U" s] 2 by simp
  ultimately show ?case by simp
qed

declare str_split.simps [simp del]

text \<open>\<open>sep.join(parts)\<close>.\<close>

fun str_join :: "pystr \<Rightarrow> pystr list \<Rightarrow> pystr" where
  "str_join sep [] = []"
| "str_join sep [x] = x"
| "str_join sep (x # y # ys) = x @ sep @ str_join sep (y # ys)"

text \<open>\<open>range(n)\<close>: empty when \<open>n \<le> 0\<close>.\<close>

definition py_range :: "int \<Rightarrow> nat list" where
  "py_range n = [0..<nat n]"

text \<open>
  \<open>zip(*lists)\<close>: with no list at all it yields nothing; otherwise it yields the tuple of
  the heads as long as no list is exhausted.
\<close>

function zip_star :: "'a list list \<Rightarrow> 'a list list" where
  "zip_star [] = []"
| "zip_star (l # ls) =
     (if [] \<in> set (l # ls) then []
      else map hd (l # ls) # zip_star (map tl (l # ls)))"
  by pat_completeness auto
termination
  by (relation "measure (\<lambda>ls. length (hd ls))") (auto simp: neq_Nil_conv)

section \<open>Text cleaning\<close>

definition clean_text :: "unicode_tables \<Rightarrow> pystr \<Rightarrow> pystr" where
  "clean_text U text =
     (let text = re_sub_class (\<lambda>c. \<not> (word_char U c \<or> space_char U c)) [] text;
          text = py_lower U text;
          text = re_sub_plus (digit_char U) [] text
      in text)"

section \<open>Frequency analysis\<close>

text \<open>
  A \<open>Counter\<close> is a dictionary from keys to integer counts. \<open>Counter.update\<close> with a list
  adds one to the count of each element, a missing key counting as 0.
\<close>

type_synonym counter = "pystr \<rightharpoonup> int"

definition Counter :: counter where
  "Counter = Map.empty"

definition counter_get :: "counter \<Rightarrow> pystr \<Rightarrow> int \<Rightarrow> int" where
  "counter_get c k d = (case c k of None \<Rightarrow> d | Some v \<Rightarrow> v)"

fun counter_update :: "counter \<Rightarrow> pystr list \<Rightarrow> counter" where
  "counter_update c [] = c"
| "counter_update c (elem # rest) =
     counter_update (c(elem \<mapsto> counter_get c elem 0 + 1)) rest"

text \<open>
  The loop of \<open>analyze_word_frequency\<close>, with the counter as the state. \<open>STOPWORDS\<close> is the
  constant of the \<open>wordcloud\<close> package, a parameter here.
\<close>

fun word_loop :: "unicode_tables \<Rightarrow> pystr set \<Rightarrow> counter \<Rightarrow> pystr list \<Rightarrow> counter" where
  "word_loop U stop_words word_counts [] = word_counts"
| "word_loop U stop_words word_counts (message # rest) =
     (let cleaned_message = clean_text U message;
          words = str_split U cleaned_message;
          words = filter (\<lambda>word. word \<notin> stop_words \<and> 2 < length word) words
      in word_loop U stop_words (counter_update word_counts words) rest)"

definition analyze_word_frequency ::
  "unicode_tables \<Rightarrow> pystr set \<Rightarrow> pystr list \<Rightarrow> pystr set option \<Rightarrow> exn + counter" where
  "analyze_word_frequency U STOPWORDS log_messages stop_words =
     (let stop_words = (case stop_words of None \<Rightarrow> STOPWORDS | Some s \<Rightarrow> s)
      in Inr (word_loop U stop_words Counter log_messages))"

text \<open>The loop of \<open>analyze_phrase_frequency\<close>.\<close>

fun phrase_loop ::
  "unicode_tables \<Rightarrow> int \<Rightarrow> pystr set \<Rightarrow> counter \<Rightarrow> pystr list \<Rightarrow> counter" where
  "phrase_loop U n stop_words phrase_counts [] = phrase_counts"
| "phrase_loop U n stop_words phrase_counts (message # rest) =
     (let cleaned_message = clean_text U message;
          words = str_split U cleaned_message;
          words = filter (\<lambda>word. word \<notin> stop_words \<and> 2 < length word) words;
          phrases = zip_star (map (\<lambda>i. drop i words) (py_range n));
          phrases = map (str_join [32]) phrases
      in phrase_loop U n stop_words (counter_update phrase_counts phrases) rest)"

definition analyze_phrase_frequency ::
  "unicode_tables \<Rightarrow> pystr set \<Rightarrow> pystr list \<Rightarrow> int \<Rightarrow> pystr set option \<Rightarrow> exn + counter"
  where
  "analyze_phrase_frequency U STOPWORDS log_messages n stop_words =
     (let stop_words = (case stop_words of None \<Rightarrow> STOPWORDS | Some s \<Rightarrow> s)
      in Inr (phrase_loop U n stop_words Counter log_messages))"

section \<open>Payload extraction\<close>

text \<open>
  The body of the \<open>try\<close> block of \<open>get_logs\<close> for one entry: the value it appends to
  \<open>log_messages\<close>, or the exception that \<open>str()\<close> raised. \<open>str\<close> is the builtin, a
  parameter here.
\<close>

definition extract_payload :: "(pyval \<Rightarrow> exn + pystr) \<Rightarrow> log_entry \<Rightarrow> exn + pyval" where
  "extract_payload str entry =
     (case payload entry of
        PyStr s \<Rightarrow> Inr (PyStr s)
      | PyDict d \<Rightarrow>
          (case map_of d (str_lit ''message'') of
             Some v \<Rightarrow> Inr v
           | None \<Rightarrow> map_sum id PyStr (str (PyDict d)))
      | PyObject x \<Rightarrow> map_sum id PyStr (str (PyObject x)))"

definition warning :: "exn \<Rightarrow> pystr" where
  "warning e =
     (case e of Exception msg \<Rightarrow>
        str_lit ''Error processing log entry: '' @ msg @ str_lit ''. Skipping.'')"

text \<open>
  The loop over the entries, which the logging client has already fetched. The state is
  \<open>log_messages\<close> and the lines printed so far.
\<close>

fun get_logs_loop ::
  "(pyval \<Rightarrow> exn + pystr) \<Rightarrow> pyval list \<times> pystr list \<Rightarrow> log_entry list
     \<Rightarrow> pyval list \<times> pystr list" where
  "get_logs_loop str (log_messages, out) [] = (log_messages, out)"
| "get_logs_loop str (log_messages, out) (entry # entries) =
     (case extract_payload str entry of
        Inr m \<Rightarrow> get_logs_loop str (log_messages @ [m], out) entries
      | Inl e \<Rightarrow> get_logs_loop str (log_messages, out @ [warning e]) entries)"

definition get_logs ::
  "(pyval \<Rightarrow> exn + pystr) \<Rightarrow> log_entry list \<Rightarrow> exn + pyval list \<times> pystr list" where
  "get_logs str entries = Inr (get_logs_loop str ([], []) entries)"

section \<open>The specification's reading of the pipeline\<close>

text \<open>Section 4.1: one extraction rule per payload variant.\<close>

fun spec_extract :: "(pyval \<Rightarrow> exn + pystr) \<Rightarrow> pyval \<Rightarrow> exn + pyval" where
  "spec_extract str (PyStr s) = Inr (PyStr s)"
| "spec_extract str (PyDict d) =
     (if str_lit ''message'' \<in> fst ` set d
      then Inr (the (map_of d (str_lit ''message'')))
      else map_sum id PyStr (str (PyDict d)))"
| "spec_extract str (PyObject x) = map_sum id PyStr (str (PyObject x))"

text \<open>Section 4.2: the four steps of the normalizer, in order.\<close>

definition spec_strip_punctuation :: "unicode_tables \<Rightarrow> pystr \<Rightarrow> pystr" where
  "spec_strip_punctuation U s = filter (\<lambda>c. word_char U c \<or> space_char U c) s"

definition spec_remove_digits :: "unicode_tables \<Rightarrow> pystr \<Rightarrow> pystr" where
  "spec_remove_digits U s = filter (\<lambda>c. \<not> digit_char U c) s"

definition spec_normalize :: "unicode_tables \<Rightarrow> pystr \<Rightarrow> pystr list" where
  "spec_normalize U s =
     str_split U (spec_remove_digits U (py_lower U (spec_strip_punctuation U s)))"

text \<open>
  Section 6: the stop-word set of a call is the one the caller gives, and the built-in
  list when the caller gives none.
\<close>

definition stop_word_set :: "pystr set \<Rightarrow> pystr set option \<Rightarrow> pystr set" where
  "stop_word_set STOPWORDS stop_words =
     (case stop_words of None \<Rightarrow> STOPWORDS | Some s \<Rightarrow> s)"

text \<open>Section 4.3: the filtered word sequence W of a message and its windows.\<close>

definition spec_tokens :: "unicode_tables \<Rightarrow> pystr set \<Rightarrow> pystr \<Rightarrow> pystr list" where
  "spec_tokens U sw m = filter (\<lambda>w. 2 < length w \<and> w \<notin> sw) (spec_normalize U m)"

definition windows :: "nat \<Rightarrow> 'a list \<Rightarrow> 'a list list" where
  "windows n W = map (\<lambda>j. take n (drop j W)) [0..<Suc (length W) - n]"

definition spec_phrases :: "unicode_tables \<Rightarrow> int \<Rightarrow> pystr set \<Rightarrow> pystr \<Rightarrow> pystr list" where
  "spec_phrases U n sw m = map (str_join [32]) (windows (nat n) (spec_tokens U sw m))"

text \<open>
  The table that counts, for each key, its occurrences over all messages; a key that
  never occurs is absent.
\<close>

definition table_of :: "(pystr \<Rightarrow> pystr list) \<Rightarrow> pystr list \<Rightarrow> counter" where
  "table_of items msgs =
     (\<lambda>k. let c = sum_list (map (\<lambda>m. count_list (items m) k) msgs)
          in if c = 0 then None else Some (int c))"

text \<open>Summing two tables key by key, and two results of an analysis call.\<close>

definition sum_tables :: "counter \<Rightarrow> counter \<Rightarrow> counter" where
  "sum_tables a b =
     (\<lambda>k. case (a k, b k) of
        (None, None) \<Rightarrow> None
      | (Some x, None) \<Rightarrow> Some x
      | (None, Some y) \<Rightarrow> Some y
      | (Some x, Some y) \<Rightarrow> Some (x + y))"

definition sum_results :: "exn + counter \<Rightarrow> exn + counter \<Rightarrow> exn + counter" where
  "sum_results r1 r2 =
     (case (r1, r2) of
        (Inr a, Inr b) \<Rightarrow> Inr (sum_tables a b)
      | (Inl e, _) \<Rightarrow> Inl e
      | (_, Inl e) \<Rightarrow> Inl e)"

section \<open>An excerpt of the runtime's tables, for concrete inputs\<close>

text \<open>
  The tables of CPython 3 on the code points the examples use: \<open>py_isspace\<close> is the full
  list of whitespace code points; \<open>py_isalnum\<close>, \<open>py_isdecimal\<close> and \<open>py_lower\<close> are exact
  on ASCII, on U+0130 (capital I with dot above, a letter, whose lowercase is the two
  code points U+0069 U+0307) and on U+0307 (combining dot above: not alphanumeric).
  The other code points are outside the excerpt and no example uses them.
\<close>

definition cpython_excerpt :: unicode_tables where
  "cpython_excerpt =
     \<lparr> py_isalnum = (\<lambda>c. (48 \<le> c \<and> c \<le> 57) \<or> (65 \<le> c \<and> c \<le> 90) \<or> (97 \<le> c \<and> c \<le> 122)
                          \<or> c = 304),
       py_isspace = (\<lambda>c. (9 \<le> c \<and> c \<le> 13) \<or> (28 \<le> c \<and> c \<le> 32) \<or> c = 133 \<or> c = 160
                          \<or> c = 5760 \<or> (8192 \<le> c \<and> c \<le> 8202) \<or> c = 8232 \<or> c = 8233
                          \<or> c = 8239 \<or> c = 8287 \<or> c = 12288),
       py_isdecimal = (\<lambda>c. 48 \<le> c \<and> c \<le> 57),
       py_lower = (\<lambda>s. concat (map (\<lambda>c. if 65 \<le> c \<and> c \<le> 90 then [c + 32]
                                         else if c = 304 then [105, 775] else [c]) s)) \<rparr>"

text \<open>
  A \<open>str()\<close> for the extraction examples. Object 0 is an object whose \<open>__str__\<close> raises
  an exception with the message \<open>boom\<close>; object 1 is \<open>None\<close>. The examples use no other
  object, and of the dicts only the empty one reaches \<open>str()\<close>.
\<close>

definition example_str :: "pyval \<Rightarrow> exn + pystr" where
  "example_str v =
     (case v of
        PyStr s \<Rightarrow> Inr s
      | PyDict d \<Rightarrow> Inr (str_lit ''{}'')
      | PyObject x \<Rightarrow>
          (if x = 0 then Inl (Exception (str_lit ''boom'')) else Inr (str_lit ''None'')))"

section \<open>Facts about the string operations\<close>

lemma filter_dropWhile_same: "filter (\<lambda>c. \<not> P c) (dropWhile P xs) = filter (\<lambda>c. \<not> P c) xs"
  by (induction xs) auto

lemma re_sub_class_empty: "re_sub_class cls [] s = filter (\<lambda>c. \<not> cls c) s"
  by (induction s) auto

lemma re_sub_plus_empty: "re_sub_plus cls [] s = filter (\<lambda>c. \<not> cls c) s"
  by (induction cls "[] :: pystr" s rule: re_sub_plus.induct)
     (auto simp: filter_dropWhile_same)

lemma clean_text_steps:
  "clean_text U s = spec_remove_digits U (py_lower U (spec_strip_punctuation U s))"
  by (simp add: clean_text_def spec_remove_digits_def spec_strip_punctuation_def
      re_sub_class_empty re_sub_plus_empty)

lemma str_split_Nil: "str_split U [] = []"
  by (subst str_split.simps) simp

lemma str_split_Cons:
  "str_split U (c # s) =
     (if py_isspace U c then str_split U s
      else (c # takeWhile (\<lambda>x. \<not> py_isspace U x) s)
             # str_split U (dropWhile (\<lambda>x. \<not> py_isspace U x) s))"
  by (subst str_split.simps, subst (2) str_split.simps) simp

lemma takeWhile_filter_dropWhile:
  "takeWhile P xs @ filter P (dropWhile P xs) = filter P xs"
  by (induction xs) auto

lemma concat_str_split: "concat (str_split U s) = filter (\<lambda>c. \<not> py_isspace U c) s"
proof (induction "length s" arbitrary: s rule: less_induct)
  case less
  show ?case
  proof (cases s)
    case Nil
    then show ?thesis by (simp add: str_split_Nil)
  next
    case (Cons c cs)
    have "length (dropWhile (\<lambda>x. \<not> py_isspace U x) cs) < length s"
      using Cons length_dropWhile_le [of "\<lambda>x. \<not> py_isspace U x" cs] by simp
    moreover have "length cs < length s" using Cons by simp
    ultimately show ?thesis
      using less Cons
      by (simp add: str_split_Cons takeWhile_filter_dropWhile)
  qed
qed

section \<open>Counters and the two loops\<close>

lemma counter_update_apply:
  "counter_update c ks k =
     (if k \<in> set ks then Some (counter_get c k 0 + int (count_list ks k)) else c k)"
  by (induction ks arbitrary: c) (auto simp: counter_get_def)

lemma counter_update_append:
  "counter_update c (xs @ ys) = counter_update (counter_update c xs) ys"
  by (induction xs arbitrary: c) auto

lemma count_list_concat:
  "count_list (concat xss) k = sum_list (map (\<lambda>xs. count_list xs k) xss)"
  by (induction xss) auto

lemma counter_update_Counter:
  "counter_update Counter (concat (map items msgs)) = table_of items msgs"
proof (rule ext)
  fix k
  have "k \<in> set (concat (map items msgs)) \<longleftrightarrow>
          sum_list (map (\<lambda>m. count_list (items m) k) msgs) \<noteq> 0"
    using count_list_0_iff [of "concat (map items msgs)" k]
    by (simp add: count_list_concat comp_def)
  then show "counter_update Counter (concat (map items msgs)) k = table_of items msgs k"
    by (simp add: counter_update_apply table_of_def Counter_def counter_get_def
        count_list_concat comp_def Let_def)
qed

lemma word_loop_eq:
  "word_loop U sw c msgs =
     counter_update c (concat (map (\<lambda>m. filter (\<lambda>word. word \<notin> sw \<and> 2 < length word)
                                            (str_split U (clean_text U m))) msgs))"
  by (induction msgs arbitrary: c) (simp_all add: counter_update_append)

lemma phrase_loop_eq:
  "phrase_loop U n sw c msgs =
     counter_update c (concat (map (\<lambda>m. map (str_join [32]) (zip_star (map (\<lambda>i. drop i
        (filter (\<lambda>word. word \<notin> sw \<and> 2 < length word) (str_split U (clean_text U m))))
          (py_range n)))) msgs))"
  by (induction msgs arbitrary: c) (simp_all add: counter_update_append)

lemma src_tokens_eq:
  "filter (\<lambda>word. word \<notin> sw \<and> 2 < length word) (str_split U (clean_text U m)) = spec_tokens U sw m"
  by (simp add: spec_tokens_def spec_normalize_def clean_text_steps conj_commute)

lemma word_table:
  "analyze_word_frequency U SW msgs sw
     = Inr (table_of (spec_tokens U (stop_word_set SW sw)) msgs)"
  by (simp add: analyze_word_frequency_def stop_word_set_def word_loop_eq src_tokens_eq
      counter_update_Counter)

section \<open>The n-ary zip builds the windows\<close>

lemma zip_star_nonempty:
  "ls \<noteq> [] \<Longrightarrow> zip_star ls = (if [] \<in> set ls then [] else map hd ls # zip_star (map tl ls))"
  by (cases ls) simp_all

lemma windows_Nil: "0 < n \<Longrightarrow> windows n [] = []"
  by (simp add: windows_def)

lemma windows_short: "length W < n \<Longrightarrow> windows n W = []"
  by (simp add: windows_def)

lemma windows_Cons:
  "n \<le> Suc (length ws) \<Longrightarrow> windows n (w # ws) = take n (w # ws) # windows n ws"
proof -
  assume le: "n \<le> Suc (length ws)"
  then have "Suc (length (w # ws)) - n = Suc (Suc (length ws) - n)" by simp
  then have "[0..<Suc (length (w # ws)) - n] = 0 # map Suc [0..<Suc (length ws) - n]"
    by (simp only: upt_conv_Cons zero_less_Suc map_Suc_upt)
  then show ?thesis
    unfolding windows_def by (simp add: comp_def)
qed

lemma zip_star_drops:
  "0 < n \<Longrightarrow> zip_star (map (\<lambda>i. drop i W) [0..<n]) = windows n W"
proof (induction W)
  case Nil
  then have "[] \<in> set (map (\<lambda>i. drop i ([]::'a list)) [0..<n])" by auto
  moreover have "map (\<lambda>i. drop i ([]::'a list)) [0..<n] \<noteq> []" using Nil by simp
  ultimately show ?case using Nil by (simp add: zip_star_nonempty windows_Nil)
next
  case (Cons w ws)
  let ?W = "w # ws"
  let ?ls = "map (\<lambda>i. drop i ?W) [0..<n]"
  have ne: "?ls \<noteq> []" using Cons.prems by simp
  show ?case
  proof (cases "n \<le> length ?W")
    case False
    then have "length ?W \<in> set [0..<n]" by simp
    then have "drop (length ?W) ?W \<in> (\<lambda>i. drop i ?W) ` set [0..<n]" by (rule imageI)
    then have "[] \<in> set ?ls" by simp
    with ne False show ?thesis by (simp add: zip_star_nonempty windows_short)
  next
    case True
    then have nomem: "[] \<notin> set ?ls" by auto
    have hd: "map hd ?ls = take n ?W"
      using True by (auto simp: list_eq_iff_nth_eq hd_drop_conv_nth)
    have tl: "map tl ?ls = map (\<lambda>i. drop i ws) [0..<n]"
      by (simp add: tl_drop)
    have "zip_star ?ls = map hd ?ls # zip_star (map tl ?ls)"
      using zip_star_nonempty [OF ne] nomem by (simp only: if_not_P if_False)
    then have "zip_star ?ls = take n ?W # zip_star (map (\<lambda>i. drop i ws) [0..<n])"
      by (simp only: hd tl)
    then show ?thesis using Cons True by (simp add: windows_Cons)
  qed
qed

lemma src_phrases_eq:
  "1 \<le> n \<Longrightarrow>
   map (str_join [32]) (zip_star (map (\<lambda>i. drop i
        (filter (\<lambda>word. word \<notin> sw \<and> 2 < length word) (str_split U (clean_text U m))))
          (py_range n))) = spec_phrases U n sw m"
  by (simp add: spec_phrases_def src_tokens_eq py_range_def zip_star_drops)

lemma phrase_table:
  "1 \<le> n \<Longrightarrow>
   analyze_phrase_frequency U SW msgs n sw
     = Inr (table_of (spec_phrases U n (stop_word_set SW sw)) msgs)"
  by (simp add: analyze_phrase_frequency_def stop_word_set_def phrase_loop_eq src_phrases_eq
      counter_update_Counter)

section \<open>Word mode and phrase mode\<close>

text \<open>The unfoldings that evaluate the string operations on a concrete input.\<close>

lemmas eval_simps = clean_text_def cpython_excerpt_def str_lit_def word_char_def space_char_def
  digit_char_def str_split_Nil str_split_Cons

text \<open>
  Claim C2. For every list of messages and every stop-word argument (a set, or none,
  which selects the built-in list), \<open>analyze_word_frequency\<close> returns the table that
  maps each word to the number of its occurrences, over all messages, among the
  normalized words that are longer than 2 and not in the stop-word set of the call
  (a repeated word counts each time; a word that never survives is absent). On
  \<open>["Error: disk FULL 123", "error disk full"]\<close> with no stop words the table is
  \<open>{"error": 2, "disk": 2, "full": 2}\<close>.
\<close>

theorem analyze_word_frequency_counts:
  "analyze_word_frequency U SW msgs sw
     = Inr (table_of (spec_tokens U (stop_word_set SW sw)) msgs)
   \<and> analyze_word_frequency cpython_excerpt SW
        [str_lit ''Error: disk FULL 123'', str_lit ''error disk full''] (Some {})
      = Inr (Counter(str_lit ''error'' \<mapsto> 2, str_lit ''disk'' \<mapsto> 2, str_lit ''full'' \<mapsto> 2))"
proof
  show "analyze_word_frequency U SW msgs sw
          = Inr (table_of (spec_tokens U (stop_word_set SW sw)) msgs)"
    by (rule word_table)
  show "analyze_word_frequency cpython_excerpt SW
        [str_lit ''Error: disk FULL 123'', str_lit ''error disk full''] (Some {})
      = Inr (Counter(str_lit ''error'' \<mapsto> 2, str_lit ''disk'' \<mapsto> 2, str_lit ''full'' \<mapsto> 2))"
    by (simp add: analyze_word_frequency_def eval_simps Counter_def counter_get_def)
qed

theorem analyze_word_frequency_counts_witness:
  "analyze_word_frequency cpython_excerpt {str_lit ''the'', str_lit ''code''}
     [str_lit ''Disk full; the disk is FULL (code 507)''] (Some {str_lit ''the''})
     = Inr (Counter(str_lit ''disk'' \<mapsto> 2, str_lit ''full'' \<mapsto> 2, str_lit ''code'' \<mapsto> 1))
   \<and> analyze_word_frequency cpython_excerpt {str_lit ''the'', str_lit ''code''}
     [str_lit ''Disk full; the disk is FULL (code 507)''] None
     = Inr (Counter(str_lit ''disk'' \<mapsto> 2, str_lit ''full'' \<mapsto> 2))
   \<and> spec_tokens cpython_excerpt {str_lit ''the''} (str_lit ''Disk full; the disk is FULL (code 507)'')
     = [str_lit ''disk'', str_lit ''full'', str_lit ''disk'', str_lit ''full'', str_lit ''code'']
   \<and> spec_tokens cpython_excerpt {str_lit ''the'', str_lit ''code''}
         (str_lit ''Disk full; the disk is FULL (code 507)'')
     = [str_lit ''disk'', str_lit ''full'', str_lit ''disk'', str_lit ''full'']"
proof -
  have tok: "spec_tokens cpython_excerpt {str_lit ''the''} (str_lit ''Disk full; the disk is FULL (code 507)'')
     = [str_lit ''disk'', str_lit ''full'', str_lit ''disk'', str_lit ''full'', str_lit ''code'']"
    by (simp add: spec_tokens_def spec_normalize_def spec_remove_digits_def
        spec_strip_punctuation_def eval_simps)
  have tok': "spec_tokens cpython_excerpt {str_lit ''the'', str_lit ''code''}
         (str_lit ''Disk full; the disk is FULL (code 507)'')
     = [str_lit ''disk'', str_lit ''full'', str_lit ''disk'', str_lit ''full'']"
    by (simp add: spec_tokens_def spec_normalize_def spec_remove_digits_def
        spec_strip_punctuation_def eval_simps)
  have tab: "table_of (spec_tokens cpython_excerpt {str_lit ''the''})
          [str_lit ''Disk full; the disk is FULL (code 507)'']
        = Counter(str_lit ''disk'' \<mapsto> 2, str_lit ''full'' \<mapsto> 2, str_lit ''code'' \<mapsto> 1)"
    by (rule ext) (simp add: table_of_def tok Counter_def, auto simp: str_lit_def)
  have tab': "table_of (spec_tokens cpython_excerpt {str_lit ''the'', str_lit ''code''})
          [str_lit ''Disk full; the disk is FULL (code 507)'']
        = Counter(str_lit ''disk'' \<mapsto> 2, str_lit ''full'' \<mapsto> 2)"
    by (rule ext) (simp add: table_of_def tok' Counter_def, auto simp: str_lit_def)
  show ?thesis
    using analyze_word_frequency_counts [of cpython_excerpt "{str_lit ''the'', str_lit ''code''}"
            "[str_lit ''Disk full; the disk is FULL (code 507)'']" "Some {str_lit ''the''}"]
      analyze_word_frequency_counts [of cpython_excerpt "{str_lit ''the'', str_lit ''code''}"
            "[str_lit ''Disk full; the disk is FULL (code 507)'']" None]
      tok tok' tab tab'
    by (simp add: stop_word_set_def)
qed

lemma windows_length: "length (windows n W) = Suc (length W) - n"
  by (simp add: windows_def)

lemma windows_nth:
  "j < length (windows n W) \<Longrightarrow> windows n W ! j = map (\<lambda>i. W ! (j + i)) [0..<n]"
  by (auto simp: windows_def list_eq_iff_nth_eq)

lemma windows_elem: "win \<in> set (windows n W) \<Longrightarrow> 0 < n \<Longrightarrow> length win = n \<and> set win \<subseteq> set W"
  by (auto simp: windows_def dest: in_set_takeD in_set_dropD)

lemma spec_tokens_kept: "w \<in> set (spec_tokens U sw m) \<Longrightarrow> w \<notin> sw \<and> 2 < length w"
  by (simp add: spec_tokens_def)

text \<open>
  Claim C1. For \<open>n \<ge> 1\<close> and every stop-word argument (a set, or none, which selects
  the built-in list), \<open>analyze_phrase_frequency\<close> returns (without raising) the table
  that counts each phrase once per occurrence over all messages, where the phrases of a
  message with filtered word sequence \<open>W\<close> of length \<open>L\<close> are the \<open>max(0, L - n + 1)\<close>
  windows \<open>W[j], ..., W[j+n-1]\<close> in order of \<open>j\<close>, each joined with one space. A message
  with \<open>L < n\<close> has no phrase, and every word of every window passed the filter: it is
  not in the stop-word set of the call and is longer than 2.
\<close>

theorem analyze_phrase_frequency_windows:
  assumes "1 \<le> n"
  shows "analyze_phrase_frequency U SW msgs n sw
           = Inr (table_of (spec_phrases U n (stop_word_set SW sw)) msgs)
    \<and> (\<forall>m. int (length (spec_phrases U n (stop_word_set SW sw) m))
               = max 0 (int (length (spec_tokens U (stop_word_set SW sw) m)) - n + 1)
          \<and> (\<forall>j < length (spec_phrases U n (stop_word_set SW sw) m).
                spec_phrases U n (stop_word_set SW sw) m ! j
                  = str_join [32]
                      (map (\<lambda>i. spec_tokens U (stop_word_set SW sw) m ! (j + i)) [0..<nat n]))
          \<and> (int (length (spec_tokens U (stop_word_set SW sw) m)) < n
                \<longrightarrow> spec_phrases U n (stop_word_set SW sw) m = [])
          \<and> (\<forall>win \<in> set (windows (nat n) (spec_tokens U (stop_word_set SW sw) m)).
                length win = nat n
                \<and> (\<forall>w \<in> set win. w \<notin> stop_word_set SW sw \<and> 2 < length w)))"
proof -
  let ?S = "stop_word_set SW sw"
  have pos: "0 < nat n" using assms by simp
  have tab: "analyze_phrase_frequency U SW msgs n sw
               = Inr (table_of (spec_phrases U n ?S) msgs)"
    using assms by (rule phrase_table)
  have len: "int (length (spec_phrases U n ?S m))
               = max 0 (int (length (spec_tokens U ?S m)) - n + 1)" for m
    using assms by (simp add: spec_phrases_def windows_length)
  have nth: "spec_phrases U n ?S m ! j
               = str_join [32] (map (\<lambda>i. spec_tokens U ?S m ! (j + i)) [0..<nat n])"
    if "j < length (spec_phrases U n ?S m)" for m j
    using that by (simp add: spec_phrases_def windows_nth)
  have short: "spec_phrases U n ?S m = []" if "int (length (spec_tokens U ?S m)) < n" for m
    using that by (simp add: spec_phrases_def windows_short)
  have filt: "length win = nat n \<and> (\<forall>w \<in> set win. w \<notin> ?S \<and> 2 < length w)"
    if win: "win \<in> set (windows (nat n) (spec_tokens U ?S m))" for m win
  proof (intro conjI ballI)
    show "length win = nat n" using windows_elem [OF win pos] by simp
    fix w
    assume "w \<in> set win"
    then have "w \<in> set (spec_tokens U ?S m)" using windows_elem [OF win pos] by auto
    then show "w \<notin> ?S" "2 < length w" by (simp_all add: spec_tokens_kept)
  qed
  show ?thesis
    using tab len nth short filt by blast
qed

theorem analyze_phrase_frequency_windows_witness:
  "(1::int) \<le> 2
   \<and> analyze_phrase_frequency cpython_excerpt {str_lit ''the''}
        [str_lit ''Error: disk FULL 123'', str_lit ''error disk full''] 2 (Some {})
      = Inr (Counter(str_lit ''error disk'' \<mapsto> 2, str_lit ''disk full'' \<mapsto> 2))
   \<and> analyze_phrase_frequency cpython_excerpt {str_lit ''the''}
        [str_lit ''Error: the disk is FULL'', str_lit ''error''] 2 None
      = Inr (Counter(str_lit ''error disk'' \<mapsto> 1, str_lit ''disk full'' \<mapsto> 1))
   \<and> spec_phrases cpython_excerpt 2 {} (str_lit ''Error: disk FULL 123'')
      = [str_lit ''error disk'', str_lit ''disk full'']
   \<and> spec_phrases cpython_excerpt 2 {str_lit ''the''} (str_lit ''Error: the disk is FULL'')
      = [str_lit ''error disk'', str_lit ''disk full'']
   \<and> spec_phrases cpython_excerpt 2 {str_lit ''the''} (str_lit ''error'') = []"
proof -
  have le: "(1::int) \<le> 2" by simp
  have nat2: "nat 2 = Suc (Suc 0)" by simp
  have p1: "spec_phrases cpython_excerpt 2 {} (str_lit ''Error: disk FULL 123'')
      = [str_lit ''error disk'', str_lit ''disk full'']"
    by (simp add: spec_phrases_def windows_def spec_tokens_def spec_normalize_def
        spec_remove_digits_def spec_strip_punctuation_def eval_simps nat2 upt_rec)
  have p2: "spec_phrases cpython_excerpt 2 {} (str_lit ''error disk full'')
      = [str_lit ''error disk'', str_lit ''disk full'']"
    by (simp add: spec_phrases_def windows_def spec_tokens_def spec_normalize_def
        spec_remove_digits_def spec_strip_punctuation_def eval_simps nat2 upt_rec)
  have q1: "spec_phrases cpython_excerpt 2 {str_lit ''the''} (str_lit ''Error: the disk is FULL'')
      = [str_lit ''error disk'', str_lit ''disk full'']"
    by (simp add: spec_phrases_def windows_def spec_tokens_def spec_normalize_def
        spec_remove_digits_def spec_strip_punctuation_def eval_simps nat2 upt_rec)
  have q2: "spec_phrases cpython_excerpt 2 {str_lit ''the''} (str_lit ''error'') = []"
    by (simp add: spec_phrases_def windows_def spec_tokens_def spec_normalize_def
        spec_remove_digits_def spec_strip_punctuation_def eval_simps nat2 upt_rec)
  have t1: "table_of (spec_phrases cpython_excerpt 2 {})
          [str_lit ''Error: disk FULL 123'', str_lit ''error disk full'']
        = Counter(str_lit ''error disk'' \<mapsto> 2, str_lit ''disk full'' \<mapsto> 2)"
    by (rule ext) (simp add: table_of_def p1 p2 Counter_def, auto simp: str_lit_def)
  have t2: "table_of (spec_phrases cpython_excerpt 2 {str_lit ''the''})
          [str_lit ''Error: the disk is FULL'', str_lit ''error'']
        = Counter(str_lit ''error disk'' \<mapsto> 1, str_lit ''disk full'' \<mapsto> 1)"
    by (rule ext) (simp add: table_of_def q1 q2 Counter_def, auto simp: str_lit_def)
  show ?thesis
    using analyze_phrase_frequency_windows [OF le, of cpython_excerpt "{str_lit ''the''}"
                "[str_lit ''Error: disk FULL 123'', str_lit ''error disk full'']" "Some {}"]
      analyze_phrase_frequency_windows [OF le, of cpython_excerpt "{str_lit ''the''}"
                "[str_lit ''Error: the disk is FULL'', str_lit ''error'']" None]
      p1 q1 q2 t1 t2
    by (simp add: stop_word_set_def)
qed

section \<open>A window size below 1\<close>

lemma zip_star_Nil_range: "n \<le> 0 \<Longrightarrow> zip_star (map f (py_range n)) = []"
  by (simp add: py_range_def)

lemma counter_update_Nil_concat: "counter_update c (concat (map (\<lambda>m. []) msgs)) = c"
  by (induction msgs) simp_all

text \<open>
  Claim C3, as amended. The code has no check of \<open>ngram_size\<close>: for \<open>n \<le> 0\<close>,
  \<open>range(n)\<close> is empty, \<open>zip()\<close> of no list yields nothing, and
  \<open>analyze_phrase_frequency\<close> goes through every message and returns the empty table.
  No error is raised.
\<close>

theorem analyze_phrase_frequency_nonpositive:
  "n \<le> 0 \<Longrightarrow> analyze_phrase_frequency U SW msgs n sw = Inr Counter"
  by (simp add: analyze_phrase_frequency_def phrase_loop_eq zip_star_Nil_range
      counter_update_Nil_concat)

theorem analyze_phrase_frequency_nonpositive_witness:
  "(- 1 :: int) \<le> 0
   \<and> analyze_phrase_frequency cpython_excerpt {} [str_lit ''error disk full''] (- 1) None
       = Inr Counter"
  using analyze_phrase_frequency_nonpositive [of "- 1" cpython_excerpt "{}" "[str_lit ''error disk full'']" None] by simp

text \<open>
  Claim C3 as stated fails: with \<open>ngram_size = 0\<close> the call on two messages returns
  normally, with the empty table, instead of raising a configuration error.
\<close>

theorem ngram_size_zero_returns:
  "analyze_phrase_frequency cpython_excerpt {}
     [str_lit ''Error: disk FULL 123'', str_lit ''error disk full''] 0 (Some {}) = Inr Counter
   \<and> \<not> isl (analyze_phrase_frequency cpython_excerpt {}
     [str_lit ''Error: disk FULL 123'', str_lit ''error disk full''] 0 (Some {}))"
  by (simp add: analyze_phrase_frequency_def py_range_def eval_simps)

section \<open>The normalizer\<close>

text \<open>
  Claim C4. The normalizer (\<open>clean_text\<close>, then \<open>split()\<close>) is the four steps in their
  order: the first substitution keeps exactly the characters that are word characters
  or whitespace, then the text is lowercased, the second substitution drops exactly the
  digits (a run of digits leaves nothing behind), and the result is split on
  whitespace. Nothing is filtered afterwards: the words, concatenated, are all the
  characters of the cleaned text that are not whitespace.
\<close>

theorem normalizer_steps:
  "str_split U (clean_text U s) = spec_normalize U s
   \<and> re_sub_class (\<lambda>c. \<not> (word_char U c \<or> space_char U c)) [] s = spec_strip_punctuation U s
   \<and> re_sub_plus (digit_char U) [] t = spec_remove_digits U t
   \<and> concat (str_split U (clean_text U s)) = filter (\<lambda>c. \<not> space_char U c) (clean_text U s)"
  by (simp add: spec_normalize_def clean_text_steps re_sub_class_empty re_sub_plus_empty
      spec_strip_punctuation_def spec_remove_digits_def concat_str_split space_char_def)

theorem normalizer_steps_witness:
  "str_split cpython_excerpt (clean_text cpython_excerpt (str_lit ''Error: disk FULL 123, at /dev/sda1 is a_b''))
     = [str_lit ''error'', str_lit ''disk'', str_lit ''full'', str_lit ''at'', str_lit ''devsda'',
        str_lit ''is'', str_lit ''a_b'']
   \<and> spec_normalize cpython_excerpt (str_lit ''Error: disk FULL 123, at /dev/sda1 is a_b'')
     = [str_lit ''error'', str_lit ''disk'', str_lit ''full'', str_lit ''at'', str_lit ''devsda'',
        str_lit ''is'', str_lit ''a_b'']"
proof -
  have "spec_normalize cpython_excerpt (str_lit ''Error: disk FULL 123, at /dev/sda1 is a_b'')
     = [str_lit ''error'', str_lit ''disk'', str_lit ''full'', str_lit ''at'', str_lit ''devsda'',
        str_lit ''is'', str_lit ''a_b'']"
    by (simp add: spec_normalize_def spec_remove_digits_def spec_strip_punctuation_def eval_simps)
  then show ?thesis
    using normalizer_steps [of cpython_excerpt "str_lit ''Error: disk FULL 123, at /dev/sda1 is a_b''" "[]"]
    by simp
qed

section \<open>Unigrams\<close>

lemma singleton_windows: "zip_star [ws] = map (\<lambda>w. [w]) ws"
  by (induction ws) simp_all

lemma join_singletons: "map (str_join sep \<circ> (\<lambda>w. [w])) ws = ws"
  by (induction ws) simp_all

lemma phrase_loop_1: "phrase_loop U 1 sw c msgs = word_loop U sw c msgs"
  by (induction msgs arbitrary: c) (simp_all add: py_range_def singleton_windows join_singletons del: zip_star.simps)

text \<open>
  Claim C7. With \<open>n = 1\<close>, \<open>analyze_phrase_frequency\<close> returns the same table as
  \<open>analyze_word_frequency\<close>, for every list of messages and every stop-word argument.
\<close>

theorem unigram_phrases_are_words:
  "analyze_phrase_frequency U SW msgs 1 sw = analyze_word_frequency U SW msgs sw"
  by (simp add: analyze_phrase_frequency_def analyze_word_frequency_def phrase_loop_1)

theorem unigram_phrases_are_words_witness:
  "analyze_phrase_frequency cpython_excerpt {} [str_lit ''Error: disk FULL 123'', str_lit ''error disk full''] 1 (Some {})
     = Inr (Counter(str_lit ''error'' \<mapsto> 2, str_lit ''disk'' \<mapsto> 2, str_lit ''full'' \<mapsto> 2))"
proof -
  have "analyze_word_frequency cpython_excerpt {}
        [str_lit ''Error: disk FULL 123'', str_lit ''error disk full''] (Some {})
      = Inr (Counter(str_lit ''error'' \<mapsto> 2, str_lit ''disk'' \<mapsto> 2, str_lit ''full'' \<mapsto> 2))"
    by (simp add: analyze_word_frequency_def eval_simps Counter_def counter_get_def)
  then show ?thesis
    using unigram_phrases_are_words [of cpython_excerpt "{}" "[str_lit ''Error: disk FULL 123'', str_lit ''error disk full'']" "Some {}"]
    by simp
qed

section \<open>Aggregation over a partition of the batch\<close>

lemma word_loop_table:
  "word_loop U sw Counter msgs =
     table_of (\<lambda>m. filter (\<lambda>word. word \<notin> sw \<and> 2 < length word)
                      (str_split U (clean_text U m))) msgs"
  by (simp only: word_loop_eq counter_update_Counter)

lemma phrase_loop_table:
  "phrase_loop U n sw Counter msgs =
     table_of (\<lambda>m. map (str_join [32]) (zip_star (map (\<lambda>i. drop i
        (filter (\<lambda>word. word \<notin> sw \<and> 2 < length word) (str_split U (clean_text U m))))
          (py_range n)))) msgs"
  by (simp only: phrase_loop_eq counter_update_Counter)

lemma sum_list_mset_cong:
  fixes f :: "'a \<Rightarrow> nat"
  shows "mset zs = mset xs + mset ys \<Longrightarrow>
    sum_list (map f zs) = sum_list (map f xs) + sum_list (map f ys)"
proof -
  assume eq: "mset zs = mset xs + mset ys"
  have "sum_list (map f zs) = sum_mset (image_mset f (mset zs))"
    by (simp add: sum_mset_sum_list [symmetric])
  also have "\<dots> = sum_mset (image_mset f (mset xs)) + sum_mset (image_mset f (mset ys))"
    by (simp add: eq)
  also have "\<dots> = sum_list (map f xs) + sum_list (map f ys)"
    by (simp add: sum_mset_sum_list [symmetric])
  finally show ?thesis .
qed

lemma count_option_add:
  fixes a b c :: nat
  shows "c = a + b \<Longrightarrow>
    (if c = 0 then None else Some (int c)) =
      (case (if a = 0 then None else Some (int a), if b = 0 then None else Some (int b)) of
         (None, None) \<Rightarrow> None
       | (Some x, None) \<Rightarrow> Some x
       | (None, Some y) \<Rightarrow> Some y
       | (Some x, Some y) \<Rightarrow> Some (x + y))"
  by auto

lemma table_of_partition:
  assumes "mset batch = mset part1 + mset part2"
  shows "table_of items batch = sum_tables (table_of items part1) (table_of items part2)"
proof (rule ext)
  fix k
  have "sum_list (map (\<lambda>m. count_list (items m) k) batch)
          = sum_list (map (\<lambda>m. count_list (items m) k) part1)
            + sum_list (map (\<lambda>m. count_list (items m) k) part2)"
    using assms by (rule sum_list_mset_cong)
  then show "table_of items batch k
               = sum_tables (table_of items part1) (table_of items part2) k"
    unfolding table_of_def sum_tables_def Let_def by (rule count_option_add)
qed

text \<open>
  Claim C8. For every batch and every way of dealing its messages out into two lists,
  in either mode, summing the tables of the two parts key by key gives the table of
  the whole batch.
\<close>

theorem aggregation_order_independent:
  assumes "mset batch = mset part1 + mset part2"
  shows "analyze_word_frequency U SW batch sw
           = sum_results (analyze_word_frequency U SW part1 sw)
                         (analyze_word_frequency U SW part2 sw)
       \<and> analyze_phrase_frequency U SW batch n sw
           = sum_results (analyze_phrase_frequency U SW part1 n sw)
                         (analyze_phrase_frequency U SW part2 n sw)"
  by (simp add: analyze_word_frequency_def analyze_phrase_frequency_def sum_results_def
      word_loop_table phrase_loop_table table_of_partition [OF assms] Let_def
      del: zip_star.simps)

theorem aggregation_order_independent_witness:
  "mset [str_lit ''Error: disk FULL 123'', str_lit ''error disk full'', str_lit ''disk error'']
     = mset [str_lit ''disk error'', str_lit ''Error: disk FULL 123'']
       + mset [str_lit ''error disk full'']
   \<and> analyze_word_frequency cpython_excerpt {}
        [str_lit ''Error: disk FULL 123'', str_lit ''error disk full'', str_lit ''disk error'']
        (Some {})
      = sum_results
          (Inr (Counter(str_lit ''error'' \<mapsto> 2, str_lit ''disk'' \<mapsto> 2, str_lit ''full'' \<mapsto> 1)))
          (Inr (Counter(str_lit ''error'' \<mapsto> 1, str_lit ''disk'' \<mapsto> 1, str_lit ''full'' \<mapsto> 1)))
   \<and> analyze_phrase_frequency cpython_excerpt {}
        [str_lit ''Error: disk FULL 123'', str_lit ''error disk full'', str_lit ''disk error'']
        2 (Some {})
      = sum_results
          (Inr (Counter(str_lit ''disk error'' \<mapsto> 1, str_lit ''error disk'' \<mapsto> 1,
                        str_lit ''disk full'' \<mapsto> 1)))
          (Inr (Counter(str_lit ''error disk'' \<mapsto> 1, str_lit ''disk full'' \<mapsto> 1)))"
proof -
  have part: "mset [str_lit ''Error: disk FULL 123'', str_lit ''error disk full'', str_lit ''disk error'']
     = mset [str_lit ''disk error'', str_lit ''Error: disk FULL 123'']
       + mset [str_lit ''error disk full'']"
    by simp
  have w1: "analyze_word_frequency cpython_excerpt {}
              [str_lit ''disk error'', str_lit ''Error: disk FULL 123''] (Some {})
            = Inr (Counter(str_lit ''error'' \<mapsto> 2, str_lit ''disk'' \<mapsto> 2, str_lit ''full'' \<mapsto> 1))"
    by (simp add: analyze_word_frequency_def eval_simps Counter_def counter_get_def)
  have w2: "analyze_word_frequency cpython_excerpt {} [str_lit ''error disk full''] (Some {})
            = Inr (Counter(str_lit ''error'' \<mapsto> 1, str_lit ''disk'' \<mapsto> 1, str_lit ''full'' \<mapsto> 1))"
    by (simp add: analyze_word_frequency_def eval_simps Counter_def counter_get_def)
  have p1: "analyze_phrase_frequency cpython_excerpt {}
              [str_lit ''disk error'', str_lit ''Error: disk FULL 123''] 2 (Some {})
            = Inr (Counter(str_lit ''disk error'' \<mapsto> 1, str_lit ''error disk'' \<mapsto> 1,
                        str_lit ''disk full'' \<mapsto> 1))"
    by (simp add: analyze_phrase_frequency_def eval_simps Counter_def counter_get_def
        py_range_def upt_rec)
  have p2: "analyze_phrase_frequency cpython_excerpt {} [str_lit ''error disk full''] 2 (Some {})
            = Inr (Counter(str_lit ''error disk'' \<mapsto> 1, str_lit ''disk full'' \<mapsto> 1))"
    by (simp add: analyze_phrase_frequency_def eval_simps Counter_def counter_get_def
        py_range_def upt_rec)
  show ?thesis
    using aggregation_order_independent [OF part, of cpython_excerpt "{}" "Some {}" 2]
    by (simp only: w1 w2 p1 p2 part simp_thms)
qed

section \<open>Counts and keys of a returned table\<close>

lemma count_option_positive:
  fixes c :: nat
  shows "(if c = 0 then None else Some (int c)) = Some v \<Longrightarrow> 1 \<le> v"
  by (cases "c = 0") auto

lemma table_of_positive: "table_of items msgs k = Some v \<Longrightarrow> 1 \<le> v"
  unfolding table_of_def Let_def by (rule count_option_positive)

lemma dom_table_of: "dom (table_of items msgs) = (\<Union>m\<in>set msgs. set (items m))"
proof -
  have "sum_list (map (\<lambda>m. count_list (items m) k) msgs) \<noteq> 0
          \<longleftrightarrow> (\<exists>m\<in>set msgs. k \<in> set (items m))" for k
    by (induction msgs) (auto simp: count_list_0_iff)
  then show ?thesis
    by (auto simp: table_of_def Let_def dom_def split: if_splits)
qed

text \<open>
  Claim C10. In the table returned by \<open>analyze_word_frequency\<close>, and in the one returned
  by \<open>analyze_phrase_frequency\<close> for \<open>n \<ge> 1\<close>, for every stop-word argument (a set, or
  none, which selects the built-in list), every count is at least 1, and the keys are
  exactly the surviving words (the phrases) that occur in some message.
\<close>

theorem counts_positive:
  "(\<exists>T. analyze_word_frequency U SW msgs sw = Inr T
        \<and> (\<forall>k v. T k = Some v \<longrightarrow> 1 \<le> v)
        \<and> dom T = (\<Union>m\<in>set msgs. set (spec_tokens U (stop_word_set SW sw) m)))
   \<and> (1 \<le> n \<longrightarrow>
        (\<exists>T. analyze_phrase_frequency U SW msgs n sw = Inr T
           \<and> (\<forall>k v. T k = Some v \<longrightarrow> 1 \<le> v)
           \<and> dom T = (\<Union>m\<in>set msgs. set (spec_phrases U n (stop_word_set SW sw) m))))"
proof (intro conjI impI)
  show "\<exists>T. analyze_word_frequency U SW msgs sw = Inr T
        \<and> (\<forall>k v. T k = Some v \<longrightarrow> 1 \<le> v)
        \<and> dom T = (\<Union>m\<in>set msgs. set (spec_tokens U (stop_word_set SW sw) m))"
    using table_of_positive [of "spec_tokens U (stop_word_set SW sw)" msgs]
    by (simp add: word_table dom_table_of)
next
  assume "1 \<le> n"
  then show "\<exists>T. analyze_phrase_frequency U SW msgs n sw = Inr T
           \<and> (\<forall>k v. T k = Some v \<longrightarrow> 1 \<le> v)
           \<and> dom T = (\<Union>m\<in>set msgs. set (spec_phrases U n (stop_word_set SW sw) m))"
    using table_of_positive [of "spec_phrases U n (stop_word_set SW sw)" msgs]
    by (simp add: phrase_table dom_table_of)
qed

theorem counts_positive_witness:
  "(1::int) \<le> 2
   \<and> (\<exists>T. analyze_word_frequency cpython_excerpt {str_lit ''the''}
              [str_lit ''Error: disk FULL 123'', str_lit ''error disk''] (Some {}) = Inr T
          \<and> (\<forall>k v. T k = Some v \<longrightarrow> 1 \<le> v)
          \<and> dom T = {str_lit ''error'', str_lit ''disk'', str_lit ''full''})
   \<and> (\<exists>T. analyze_phrase_frequency cpython_excerpt {str_lit ''the''}
              [str_lit ''Error: disk FULL 123'', str_lit ''error disk''] 2 (Some {}) = Inr T
          \<and> (\<forall>k v. T k = Some v \<longrightarrow> 1 \<le> v)
          \<and> dom T = {str_lit ''error disk'', str_lit ''disk full''})
   \<and> (\<exists>T. analyze_word_frequency cpython_excerpt {str_lit ''the''}
              [str_lit ''the disk'', str_lit ''Error: the disk is FULL''] None = Inr T
          \<and> (\<forall>k v. T k = Some v \<longrightarrow> 1 \<le> v)
          \<and> dom T = {str_lit ''disk'', str_lit ''error'', str_lit ''full''})
   \<and> (\<exists>T. analyze_phrase_frequency cpython_excerpt {str_lit ''the''}
              [str_lit ''the disk'', str_lit ''Error: the disk is FULL''] 2 None = Inr T
          \<and> (\<forall>k v. T k = Some v \<longrightarrow> 1 \<le> v)
          \<and> dom T = {str_lit ''error disk'', str_lit ''disk full''})"
proof -
  have le: "(1::int) \<le> 2" by simp
  have nat2: "nat 2 = Suc (Suc 0)" by simp
  have t1: "spec_tokens cpython_excerpt {} (str_lit ''Error: disk FULL 123'')
              = [str_lit ''error'', str_lit ''disk'', str_lit ''full'']"
    by (simp add: spec_tokens_def spec_normalize_def spec_remove_digits_def
        spec_strip_punctuation_def eval_simps)
  have t2: "spec_tokens cpython_excerpt {} (str_lit ''error disk'')
              = [str_lit ''error'', str_lit ''disk'']"
    by (simp add: spec_tokens_def spec_normalize_def spec_remove_digits_def
        spec_strip_punctuation_def eval_simps)
  have t3: "spec_tokens cpython_excerpt {str_lit ''the''} (str_lit ''the disk'')
              = [str_lit ''disk'']"
    by (simp add: spec_tokens_def spec_normalize_def spec_remove_digits_def
        spec_strip_punctuation_def eval_simps)
  have t4: "spec_tokens cpython_excerpt {str_lit ''the''} (str_lit ''Error: the disk is FULL'')
              = [str_lit ''error'', str_lit ''disk'', str_lit ''full'']"
    by (simp add: spec_tokens_def spec_normalize_def spec_remove_digits_def
        spec_strip_punctuation_def eval_simps)
  have p1: "spec_phrases cpython_excerpt 2 {} (str_lit ''Error: disk FULL 123'')
              = [str_lit ''error disk'', str_lit ''disk full'']"
    by (simp add: spec_phrases_def t1 windows_def nat2 upt_rec) (simp add: str_lit_def)
  have p2: "spec_phrases cpython_excerpt 2 {} (str_lit ''error disk'')
              = [str_lit ''error disk'']"
    by (simp add: spec_phrases_def t2 windows_def nat2 upt_rec) (simp add: str_lit_def)
  have p3: "spec_phrases cpython_excerpt 2 {str_lit ''the''} (str_lit ''the disk'') = []"
    by (simp add: spec_phrases_def t3 windows_def nat2)
  have p4: "spec_phrases cpython_excerpt 2 {str_lit ''the''} (str_lit ''Error: the disk is FULL'')
              = [str_lit ''error disk'', str_lit ''disk full'']"
    by (simp add: spec_phrases_def t4 windows_def nat2 upt_rec) (simp add: str_lit_def)
  have d1: "(\<Union>m\<in>set [str_lit ''Error: disk FULL 123'', str_lit ''error disk''].
               set (spec_tokens cpython_excerpt {} m))
            = {str_lit ''error'', str_lit ''disk'', str_lit ''full''}"
    by (auto simp: t1 t2)
  have d2: "(\<Union>m\<in>set [str_lit ''Error: disk FULL 123'', str_lit ''error disk''].
               set (spec_phrases cpython_excerpt 2 {} m))
            = {str_lit ''error disk'', str_lit ''disk full''}"
    by (auto simp: p1 p2)
  have d3: "(\<Union>m\<in>set [str_lit ''the disk'', str_lit ''Error: the disk is FULL''].
               set (spec_tokens cpython_excerpt {str_lit ''the''} m))
            = {str_lit ''disk'', str_lit ''error'', str_lit ''full''}"
    by (auto simp: t3 t4)
  have d4: "(\<Union>m\<in>set [str_lit ''the disk'', str_lit ''Error: the disk is FULL''].
               set (spec_phrases cpython_excerpt 2 {str_lit ''the''} m))
            = {str_lit ''error disk'', str_lit ''disk full''}"
    by (auto simp: p3 p4)
  have s1: "stop_word_set {str_lit ''the''} (Some {}) = {}"
    by (simp add: stop_word_set_def)
  have s2: "stop_word_set {str_lit ''the''} None = {str_lit ''the''}"
    by (simp add: stop_word_set_def)
  show ?thesis
    using counts_positive [of cpython_excerpt "{str_lit ''the''}"
            "[str_lit ''Error: disk FULL 123'', str_lit ''error disk'']" "Some {}" 2]
      counts_positive [of cpython_excerpt "{str_lit ''the''}"
            "[str_lit ''the disk'', str_lit ''Error: the disk is FULL'']" None 2]
    by (simp only: le s1 s2 d1 d2 d3 d4 simp_thms)
qed

section \<open>Cleaning a text that is already clean\<close>

lemma clean_text_fixed:
  assumes "list_all (\<lambda>c. word_char U c \<or> space_char U c) s"
    and "list_all (\<lambda>c. \<not> digit_char U c) s"
    and "py_lower U s = s"
  shows "clean_text U s = s"
proof -
  have "spec_strip_punctuation U s = s"
    using assms(1) by (simp add: spec_strip_punctuation_def filter_id_conv list_all_iff)
  moreover have "spec_remove_digits U s = s"
    using assms(2) by (simp add: spec_remove_digits_def filter_id_conv list_all_iff)
  ultimately show ?thesis
    using assms(3) by (simp add: clean_text_steps)
qed

lemma clean_text_no_digit: "list_all (\<lambda>c. \<not> digit_char U c) (clean_text U s)"
  by (simp add: clean_text_steps spec_remove_digits_def list_all_iff)

text \<open>
  Claim C9, as amended. A message that is already lowercase (a fixed point of
  \<open>lower()\<close>) and has only word characters and whitespace, none of them a digit, is
  returned unchanged by \<open>clean_text\<close>, so the normalizer yields the message's own
  whitespace split. The cleaned text of an arbitrary message is again of that form,
  and normalizing it a second time changes nothing, whenever it has only word characters
  and whitespace and is a fixed point of \<open>lower()\<close>: it is always free of digits, but
  lowercasing runs after the punctuation has been stripped and can bring in a character
  that is no word character.
\<close>

theorem clean_text_idempotent_on_normalized:
  "(list_all (\<lambda>c. word_char U c \<or> space_char U c) s
      \<and> list_all (\<lambda>c. \<not> digit_char U c) s \<and> py_lower U s = s
     \<longrightarrow> clean_text U s = s \<and> str_split U (clean_text U s) = str_split U s)
   \<and> (list_all (\<lambda>c. word_char U c \<or> space_char U c) (clean_text U s)
        \<and> py_lower U (clean_text U s) = clean_text U s
     \<longrightarrow> str_split U (clean_text U (clean_text U s)) = str_split U (clean_text U s))"
  using clean_text_fixed [of U s] clean_text_fixed [of U "clean_text U s"]
    clean_text_no_digit [of U s]
  by simp

theorem clean_text_idempotent_on_normalized_witness:
  "list_all (\<lambda>c. word_char cpython_excerpt c \<or> space_char cpython_excerpt c)
     (str_lit ''error disk_full'')
   \<and> list_all (\<lambda>c. \<not> digit_char cpython_excerpt c) (str_lit ''error disk_full'')
   \<and> py_lower cpython_excerpt (str_lit ''error disk_full'') = str_lit ''error disk_full''
   \<and> str_split cpython_excerpt (clean_text cpython_excerpt (str_lit ''error disk_full''))
       = str_split cpython_excerpt (str_lit ''error disk_full'')
   \<and> str_split cpython_excerpt (str_lit ''error disk_full'')
       = [str_lit ''error'', str_lit ''disk_full'']
   \<and> list_all (\<lambda>c. word_char cpython_excerpt c \<or> space_char cpython_excerpt c)
         (clean_text cpython_excerpt (str_lit ''Error: disk FULL 123''))
   \<and> py_lower cpython_excerpt (clean_text cpython_excerpt (str_lit ''Error: disk FULL 123''))
       = clean_text cpython_excerpt (str_lit ''Error: disk FULL 123'')
   \<and> str_split cpython_excerpt
         (clean_text cpython_excerpt (clean_text cpython_excerpt (str_lit ''Error: disk FULL 123'')))
       = str_split cpython_excerpt (clean_text cpython_excerpt (str_lit ''Error: disk FULL 123''))"
proof -
  have e: "clean_text cpython_excerpt (str_lit ''Error: disk FULL 123'') = str_lit ''error disk full ''"
    by (simp add: eval_simps)
  have f: "list_all (\<lambda>c. word_char cpython_excerpt c \<or> space_char cpython_excerpt c)
             (str_lit ''error disk full '')"
    by (simp add: eval_simps)
  have g: "py_lower cpython_excerpt (str_lit ''error disk full '') = str_lit ''error disk full ''"
    by (simp add: eval_simps)
  have a: "list_all (\<lambda>c. word_char cpython_excerpt c \<or> space_char cpython_excerpt c)
             (str_lit ''error disk_full'')"
    by (simp add: eval_simps)
  have b: "list_all (\<lambda>c. \<not> digit_char cpython_excerpt c) (str_lit ''error disk_full'')"
    by (simp add: eval_simps)
  have c: "py_lower cpython_excerpt (str_lit ''error disk_full'') = str_lit ''error disk_full''"
    by (simp add: eval_simps)
  have d: "str_split cpython_excerpt (str_lit ''error disk_full'')
             = [str_lit ''error'', str_lit ''disk_full'']"
    by (simp add: eval_simps)
  show ?thesis
    using clean_text_idempotent_on_normalized [of cpython_excerpt "str_lit ''error disk_full''"]
      clean_text_idempotent_on_normalized [of cpython_excerpt "str_lit ''Error: disk FULL 123''"]
      a b c d f g
    by (simp only: e simp_thms)
qed

text \<open>
  Claim C9 as stated fails in its last clause: the message that is the single letter
  U+0130 is normalized to the word U+0069 U+0307, and normalizing that word again
  strips the combining dot, leaving the word U+0069.
\<close>

theorem renormalizing_changes_output:
  "str_split cpython_excerpt (clean_text cpython_excerpt [304]) = [[105, 775]]
   \<and> str_split cpython_excerpt (clean_text cpython_excerpt [105, 775]) = [[105]]
   \<and> str_split cpython_excerpt (clean_text cpython_excerpt [105, 775])
       \<noteq> str_split cpython_excerpt (clean_text cpython_excerpt [304])"
  by (simp add: eval_simps)

section \<open>Extraction of the payloads\<close>

lemma get_logs_loop_eq:
  "get_logs_loop str (acc, out) entries =
     (acc @ map projr (filter (\<lambda>r. \<not> isl r) (map (extract_payload str) entries)),
      out @ map (\<lambda>r. warning (projl r)) (filter isl (map (extract_payload str) entries)))"
  by (induction entries arbitrary: acc out) (auto split: sum.splits)

lemma length_filter_split:
  "length (filter (\<lambda>x. \<not> P x) xs) + length (filter P xs) = length xs"
  using sum_length_filter_compl [of P xs] by simp

lemma extract_payload_spec: "extract_payload str entry = spec_extract str (payload entry)"
proof (cases "payload entry")
  case (PyDict d)
  have "str_lit ''message'' \<in> fst ` set d \<longleftrightarrow> map_of d (str_lit ''message'') \<noteq> None"
    by (simp add: map_of_eq_None_iff)
  then show ?thesis
    using PyDict by (auto simp: extract_payload_def split: option.splits)
qed (simp_all add: extract_payload_def)

text \<open>
  Claim C5. \<open>get_logs\<close> returns normally on every sequence of entries. The messages it
  returns are the results of the entries whose extraction did not raise, in order
  (an entry whose extraction raised leaves nothing in the list, and one warning is
  printed for it); so their number plus the number of the entries that raised is the
  number of entries, it is at most the number of entries, and with exactly one entry
  that raised it is the batch size minus 1.
\<close>

theorem get_logs_skips_failures:
  "\<exists>msgs out. get_logs str entries = Inr (msgs, out)
     \<and> msgs = map projr (filter (\<lambda>r. \<not> isl r) (map (extract_payload str) entries))
     \<and> length msgs + length (filter (\<lambda>e. isl (extract_payload str e)) entries)
         = length entries
     \<and> length out = length (filter (\<lambda>e. isl (extract_payload str e)) entries)
     \<and> length msgs \<le> length entries
     \<and> (length (filter (\<lambda>e. isl (extract_payload str e)) entries) = 1
          \<longrightarrow> length msgs = length entries - 1)"
proof -
  let ?rs = "map (extract_payload str) entries"
  let ?msgs = "map projr (filter (\<lambda>r. \<not> isl r) ?rs)"
  let ?out = "map (\<lambda>r. warning (projl r)) (filter isl ?rs)"
  let ?failed = "filter (\<lambda>e. isl (extract_payload str e)) entries"
  have res: "get_logs str entries = Inr (?msgs, ?out)"
    by (simp add: get_logs_def get_logs_loop_eq)
  have fl: "length ?failed = length (filter isl ?rs)"
    by (simp add: filter_map comp_def)
  have sum: "length ?msgs + length ?failed = length entries"
    using length_filter_split [of isl ?rs] by (simp only: fl length_map)
  have out: "length ?out = length ?failed"
    by (simp only: fl length_map)
  have le: "length ?msgs \<le> length entries"
    using sum by arith
  have one: "length ?failed = 1 \<longrightarrow> length ?msgs = length entries - 1"
    using sum by arith
  show ?thesis
    using res sum out le one by blast
qed

theorem get_logs_skips_failures_witness:
  "get_logs example_str
     [\<lparr>payload = PyStr (str_lit ''disk full'')\<rparr>, \<lparr>payload = PyObject 0\<rparr>, \<lparr>payload = PyDict []\<rparr>]
   = Inr ([PyStr (str_lit ''disk full''), PyStr (str_lit ''{}'')],
          [str_lit ''Error processing log entry: boom. Skipping.''])
   \<and> length (filter (\<lambda>e. isl (extract_payload example_str e))
        [\<lparr>payload = PyStr (str_lit ''disk full'')\<rparr>, \<lparr>payload = PyObject 0\<rparr>,
         \<lparr>payload = PyDict []\<rparr>]) = 1
   \<and> length [PyStr (str_lit ''disk full''), PyStr (str_lit ''{}'')] = 3 - 1"
proof -
  have ev: "get_logs example_str
     [\<lparr>payload = PyStr (str_lit ''disk full'')\<rparr>, \<lparr>payload = PyObject 0\<rparr>, \<lparr>payload = PyDict []\<rparr>]
   = Inr ([PyStr (str_lit ''disk full''), PyStr (str_lit ''{}'')],
          [str_lit ''Error processing log entry: boom. Skipping.''])"
    by (simp add: get_logs_def extract_payload_def example_str_def warning_def str_lit_def)
  have one: "length (filter (\<lambda>e. isl (extract_payload example_str e))
        [\<lparr>payload = PyStr (str_lit ''disk full'')\<rparr>, \<lparr>payload = PyObject 0\<rparr>,
         \<lparr>payload = PyDict []\<rparr>]) = 1"
    by (simp add: extract_payload_def example_str_def)
  obtain msgs out where
    res: "get_logs example_str
            [\<lparr>payload = PyStr (str_lit ''disk full'')\<rparr>, \<lparr>payload = PyObject 0\<rparr>,
             \<lparr>payload = PyDict []\<rparr>] = Inr (msgs, out)"
    and len: "length (filter (\<lambda>e. isl (extract_payload example_str e))
                [\<lparr>payload = PyStr (str_lit ''disk full'')\<rparr>, \<lparr>payload = PyObject 0\<rparr>,
                 \<lparr>payload = PyDict []\<rparr>]) = 1
              \<longrightarrow> length msgs
                    = length [\<lparr>payload = PyStr (str_lit ''disk full'')\<rparr>,
                              \<lparr>payload = PyObject 0\<rparr>, \<lparr>payload = PyDict []\<rparr>] - 1"
    using get_logs_skips_failures [of example_str
        "[\<lparr>payload = PyStr (str_lit ''disk full'')\<rparr>, \<lparr>payload = PyObject 0\<rparr>,
          \<lparr>payload = PyDict []\<rparr>]"]
    by blast
  have "msgs = [PyStr (str_lit ''disk full''), PyStr (str_lit ''{}'')]"
    using res ev by simp
  then have "length [PyStr (str_lit ''disk full''), PyStr (str_lit ''{}'')] = 3 - 1"
    using len one by simp
  then show ?thesis
    using ev one by (simp only: simp_thms)
qed

text \<open>
  Claim C6. For every entry the value that the loop appends is the one the case split
  gives: a string payload itself; the value of the \<open>"message"\<close> field of a mapping that
  has one; \<open>str()\<close> of the whole mapping otherwise; \<open>str()\<close> of any other payload. The
  messages of a batch are these values, for the entries whose \<open>str()\<close> did not raise.
\<close>

theorem extract_payload_case_split:
  "extract_payload str entry = spec_extract str (payload entry)
   \<and> (\<exists>out. get_logs str entries
         = Inr (map projr (filter (\<lambda>r. \<not> isl r) (map (\<lambda>e. spec_extract str (payload e)) entries)),
                out))"
  by (simp add: extract_payload_spec [symmetric] get_logs_def get_logs_loop_eq)

theorem extract_payload_case_split_witness:
  "extract_payload example_str \<lparr>payload = PyStr (str_lit ''disk full'')\<rparr>
     = Inr (PyStr (str_lit ''disk full''))
   \<and> extract_payload example_str
        \<lparr>payload = PyDict [(str_lit ''severity'', PyStr (str_lit ''INFO'')),
                            (str_lit ''message'', PyStr (str_lit ''disk ok''))]\<rparr>
     = Inr (PyStr (str_lit ''disk ok''))
   \<and> extract_payload example_str \<lparr>payload = PyDict []\<rparr> = Inr (PyStr (str_lit ''{}''))
   \<and> extract_payload example_str \<lparr>payload = PyObject 1\<rparr> = Inr (PyStr (str_lit ''None''))"
proof -
  have "spec_extract example_str (PyStr (str_lit ''disk full'')) = Inr (PyStr (str_lit ''disk full''))"
    by simp
  moreover have "spec_extract example_str
        (PyDict [(str_lit ''severity'', PyStr (str_lit ''INFO'')),
                 (str_lit ''message'', PyStr (str_lit ''disk ok''))])
     = Inr (PyStr (str_lit ''disk ok''))"
    by (simp add: str_lit_def)
  moreover have "spec_extract example_str (PyDict []) = Inr (PyStr (str_lit ''{}''))"
    by (simp add: example_str_def)
  moreover have "spec_extract example_str (PyObject 1) = Inr (PyStr (str_lit ''None''))"
    by (simp add: example_str_def)
  ultimately show ?thesis
    using extract_payload_case_split [of example_str "\<lparr>payload = PyStr (str_lit ''disk full'')\<rparr>" "[]"]
      extract_payload_case_split [of example_str
        "\<lparr>payload = PyDict [(str_lit ''severity'', PyStr (str_lit ''INFO'')),
                            (str_lit ''message'', PyStr (str_lit ''disk ok''))]\<rparr>" "[]"]
      extract_payload_case_split [of example_str "\<lparr>payload = PyDict []\<rparr>" "[]"]
      extract_payload_case_split [of example_str "\<lparr>payload = PyObject 1\<rparr>" "[]"]
    by simp
qed

end
